theory Spec2Isabelle
  imports Main
begin

section \<open>Values, struct fields and errors\<close>

text \<open>
  The validator inspects a Go value through package \<^verbatim>\<open>reflect\<close>. A value is modelled
  by what the validator reads of it: its kind, its string, integer or element contents,
  and the name of its type (used only by \<^verbatim>\<open>reflect.Value.String\<close> on a value that is
  not a string). Kinds other than the four the validator dispatches on are collected in
  \<open>OtherKind\<close>. Go's \<^verbatim>\<open>int\<close> is modelled by \<open>int\<close>: the validator only compares
  integers, and \<open>Atoi\<close> below writes the 64-bit range out.
\<close>

datatype OtherKind =
    Bool | Int8 | Int16 | Int32 | Int64
  | Uint | Uint8 | Uint16 | Uint32 | Uint64 | Uintptr
  | Float32 | Float64 | Complex64 | Complex128
  | Array | Chan | Func | Interface | Map | Pointer | UnsafePointer

datatype Kind = StringK | IntK | SliceK | StructK | OtherK OtherKind

text \<open>
  A struct field as \<^verbatim>\<open>reflect.StructField\<close> and \<^verbatim>\<open>reflect.Value.Field\<close> give it:
  \<open>Tag\<close> is the result of \<^verbatim>\<open>Tag.Get("validate")\<close> (empty when the key is absent).
\<close>

datatype Value =
    StringV string
  | IntV int
  | SliceV string "Value list"
  | StructV string "StructField list"
  | OtherV OtherKind string
and StructField =
    StructField (Name: string) (IsExported: bool) (Tag: string) (FieldValue: Value)

fun Kind_of :: "Value \<Rightarrow> Kind" where
  "Kind_of (StringV s) = StringK"
| "Kind_of (IntV i) = IntK"
| "Kind_of (SliceV t xs) = SliceK"
| "Kind_of (StructV t fs) = StructK"
| "Kind_of (OtherV k t) = OtherK k"

text \<open>
  \<^verbatim>\<open>reflect.Value.String\<close>: the string itself for a value of kind String, and
  \<^verbatim>\<open>"<" + v.Type().String() + " Value>"\<close> for every other kind. It never panics.
\<close>

fun String_of :: "Value \<Rightarrow> string" where
  "String_of (StringV s) = s"
| "String_of (IntV i) = ''<int Value>''"
| "String_of (SliceV t xs) = ''<'' @ t @ '' Value>''"
| "String_of (StructV t fs) = ''<'' @ t @ '' Value>''"
| "String_of (OtherV k t) = ''<'' @ t @ '' Value>''"

text \<open>
  The package's three sentinel errors, and \<^verbatim>\<open>errors.New(msg)\<close> for the messages built
  on the fly.
\<close>

datatype error =
    ErrNotStruct
  | ErrInvalidValidatorSyntax
  | ErrValidateForUnexportedFields
  | New string

datatype ValidationError = ValidationError (Err: error)

type_synonym ValidationErrors = "ValidationError list"

text \<open>
  What \<open>Validate\<close> returns through its \<^verbatim>\<open>error\<close> result: \<^verbatim>\<open>nil\<close>, a plain error, or
  a \<open>ValidationErrors\<close> list. A run-time panic is kept apart, as the left summand.
\<close>

datatype Result = NoError | PlainError error | ErrorList ValidationErrors

datatype panic = NilDereference | IndexOutOfRange

section \<open>Library functions the validator calls\<close>

text \<open>
  \<^verbatim>\<open>strings.Split(s, sep)\<close> for a one-byte separator: the substrings between the
  separators, so the result always has at least one element (\<^verbatim>\<open>[""]\<close> for the empty
  string).
\<close>

fun Split :: "string \<Rightarrow> char \<Rightarrow> string list" where
  "Split [] sep = [[]]"
| "Split (x # xs) sep =
     (if x = sep then [] # Split xs sep
      else (case Split xs sep of
              [] \<Rightarrow> [[x]]
            | w # ws \<Rightarrow> (x # w) # ws))"

text \<open>
  \<^verbatim>\<open>strconv.Atoi\<close> on a 64-bit platform, following \<^verbatim>\<open>strconv.ParseInt(s, 10, 0)\<close> and
  \<^verbatim>\<open>strconv.ParseUint\<close>: an optional sign, then decimal digits only. The result is the
  pair Go returns: the number and the error (\<open>None\<close> for \<^verbatim>\<open>nil\<close>). A syntax error
  returns 0; a range error returns the nearest bound of the type. A digit is a byte from
  \<^verbatim>\<open>'0'\<close> (48) to \<^verbatim>\<open>'9'\<close> (57).
\<close>

datatype NumError = ErrSyntax | ErrRange

definition digit_of :: "char \<Rightarrow> int option" where
  "digit_of c =
     (let b = (of_char c :: int)
      in if 48 \<le> b \<and> b \<le> 57 then Some (b - 48) else None)"

definition maxUint64 :: int where
  "maxUint64 = 18446744073709551615"

definition maxInt64 :: int where
  "maxInt64 = 9223372036854775807"

definition minInt64 :: int where
  "minInt64 = - 9223372036854775808"

text \<open>
  The digit loop of \<^verbatim>\<open>ParseUint\<close>, with the number read so far (a \<^verbatim>\<open>uint64\<close>, kept
  below \<open>2 ^ 64\<close> by the two overflow tests).
\<close>

fun ParseUint_loop :: "int \<Rightarrow> string \<Rightarrow> int \<times> NumError option" where
  "ParseUint_loop n [] = (n, None)"
| "ParseUint_loop n (c # cs) =
     (case digit_of c of
        None \<Rightarrow> (0, Some ErrSyntax)
      | Some d \<Rightarrow>
          if n \<ge> maxUint64 div 10 + 1 then (maxUint64, Some ErrRange)
          else if n * 10 + d > maxUint64 then (maxUint64, Some ErrRange)
          else ParseUint_loop (n * 10 + d) cs)"

definition ParseUint :: "string \<Rightarrow> int \<times> NumError option" where
  "ParseUint s = (if s = [] then (0, Some ErrSyntax) else ParseUint_loop 0 s)"

definition Atoi :: "string \<Rightarrow> int \<times> NumError option" where
  "Atoi s =
     (if s = [] then (0, Some ErrSyntax)
      else
        let neg = (hd s = CHR ''-'');
            s1 = (if hd s = CHR ''+'' \<or> hd s = CHR ''-'' then tl s else s);
            (un, err) = ParseUint s1
        in if err = Some ErrSyntax then (0, Some ErrSyntax)
           else if \<not> neg \<and> un \<ge> 9223372036854775808 then (maxInt64, Some ErrRange)
           else if neg \<and> un > 9223372036854775808 then (minInt64, Some ErrRange)
           else (if neg then - un else un, None))"

text \<open>\<^verbatim>\<open>strconv.Itoa\<close>: the decimal rendering of an integer.\<close>

definition digit_char :: "nat \<Rightarrow> char" where
  "digit_char d = ''0123456789'' ! (d mod 10)"

fun nat_digits :: "nat \<Rightarrow> string" where
  "nat_digits n = (if n < 10 then [digit_char n] else nat_digits (n div 10) @ [digit_char n])"

declare nat_digits.simps [simp del]

definition Itoa :: "int \<Rightarrow> string" where
  "Itoa i = (if i < 0 then CHR ''-'' # nat_digits (nat (- i)) else nat_digits (nat i))"

section \<open>The validator\<close>

text \<open>
  \<^verbatim>\<open>Constraints\<close> with the fields of the source; \<open>in_c\<close> is \<open>None\<close> for a nil slice.
\<close>

record Constraints =
  len_c :: int
  in_c :: "string list option"
  min_c :: int
  max_c :: int

definition NewConstraints :: Constraints where
  "NewConstraints = \<lparr>len_c = - 1, in_c = None, min_c = - 1, max_c = - 1\<rparr>"

definition ParseInt :: "string \<Rightarrow> int \<times> error option" where
  "ParseInt s =
     (case Atoi s of
        (val, Some e) \<Rightarrow> (0, Some ErrInvalidValidatorSyntax)
      | (val, None) \<Rightarrow> (val, None))"

text \<open>The index expression \<^verbatim>\<open>s[1]\<close>, which panics when the slice has fewer than two elements.\<close>

fun index1 :: "string list \<Rightarrow> panic + string" where
  "index1 (a # b # rest) = Inr b"
| "index1 xs = Inl IndexOutOfRange"

text \<open>
  The body of the loop over the clauses in \<open>ParseConstraints\<close>: one clause, the
  constraints and the errors so far. \<^verbatim>\<open>s[0]\<close> always exists, since \<open>Split\<close> never returns
  an empty list.
\<close>

definition parseClause ::
  "string \<Rightarrow> Constraints \<times> ValidationErrors \<Rightarrow> panic + Constraints \<times> ValidationErrors" where
  "parseClause con st =
     (let (constraints, validationErrors) = st;
          s = Split con CHR '':''
      in if hd s = ''max'' then
           (case index1 s of
              Inl p \<Rightarrow> Inl p
            | Inr s1 \<Rightarrow>
                (case ParseInt s1 of
                   (m, Some err) \<Rightarrow> Inr (constraints, validationErrors @ [ValidationError err])
                 | (m, None) \<Rightarrow> Inr (constraints\<lparr>max_c := m\<rparr>, validationErrors)))
         else if hd s = ''min'' then
           (case index1 s of
              Inl p \<Rightarrow> Inl p
            | Inr s1 \<Rightarrow>
                (case ParseInt s1 of
                   (m, Some err) \<Rightarrow> Inr (constraints, validationErrors @ [ValidationError err])
                 | (m, None) \<Rightarrow> Inr (constraints\<lparr>min_c := m\<rparr>, validationErrors)))
         else if hd s = ''len'' then
           (case index1 s of
              Inl p \<Rightarrow> Inl p
            | Inr s1 \<Rightarrow>
                (case ParseInt s1 of
                   (l, Some err) \<Rightarrow> Inr (constraints, validationErrors @ [ValidationError err])
                 | (l, None) \<Rightarrow>
                     if l < 0 then
                       Inr (constraints, validationErrors @ [ValidationError (New ''wrong length'')])
                     else Inr (constraints\<lparr>len_c := l\<rparr>, validationErrors)))
         else if hd s = ''in'' then
           (case index1 s of
              Inl p \<Rightarrow> Inl p
            | Inr s1 \<Rightarrow> Inr (constraints\<lparr>in_c := Some (Split s1 CHR '','')\<rparr>, validationErrors))
         else Inr (constraints, validationErrors))"

fun parseClauses ::
  "string list \<Rightarrow> Constraints \<times> ValidationErrors \<Rightarrow> panic + Constraints \<times> ValidationErrors" where
  "parseClauses [] st = Inr st"
| "parseClauses (con # cons) st =
     (case parseClause con st of
        Inl p \<Rightarrow> Inl p
      | Inr st' \<Rightarrow> parseClauses cons st')"

definition ParseConstraints ::
  "StructField \<Rightarrow> ValidationErrors \<Rightarrow> panic + Constraints \<times> ValidationErrors" where
  "ParseConstraints f validationErrors =
     (if Tag f \<noteq> [] then parseClauses (Split (Tag f) CHR '';'') (NewConstraints, validationErrors)
      else Inr (NewConstraints, validationErrors))"

text \<open>The membership loop of \<open>checkStringConstraints\<close>: \<open>find\<close> after the loop.\<close>

fun findString :: "string \<Rightarrow> string list \<Rightarrow> bool" where
  "findString v [] = False"
| "findString v (s # ss) = (if v = s then True else findString v ss)"

definition checkStringConstraints ::
  "Value \<Rightarrow> string \<Rightarrow> Constraints \<Rightarrow> ValidationErrors \<Rightarrow> ValidationErrors" where
  "checkStringConstraints val fieldName constraints validationErrors =
     (let e1 = (if max_c constraints \<noteq> - 1 \<and> int (length (String_of val)) > max_c constraints
                then validationErrors @
                  [ValidationError (New (''field: '' @ fieldName @ '' err: length can't be more than max''))]
                else validationErrors);
          e2 = (if min_c constraints \<noteq> - 1 \<and> int (length (String_of val)) < min_c constraints
                then e1 @
                  [ValidationError (New (''field: '' @ fieldName @ '' err: length can't be less than min''))]
                else e1);
          e3 = (if len_c constraints \<noteq> - 1 \<and> int (length (String_of val)) \<noteq> len_c constraints
                then e2 @
                  [ValidationError (New (''field: '' @ fieldName @ '' err: length must be equal to len''))]
                else e2)
      in case in_c constraints of
           None \<Rightarrow> e3
         | Some toks \<Rightarrow>
             if \<not> findString (String_of val) toks
             then e3 @
               [ValidationError (New (''field: '' @ fieldName @ '' err: value is not contained in the 'in'' @ [CHR 0x27]))]
             else e3)"

text \<open>
  The membership loop of \<open>checkIntConstraints\<close>: \<open>find\<close> and the errors after the loop.
  There is no \<^verbatim>\<open>continue\<close> after a failed \<open>Atoi\<close>: the number it returned is compared all
  the same.
\<close>

fun findInt :: "int \<Rightarrow> string list \<Rightarrow> ValidationErrors \<Rightarrow> bool \<times> ValidationErrors" where
  "findInt v [] validationErrors = (False, validationErrors)"
| "findInt v (s # ss) validationErrors =
     (let (num, err) = Atoi s;
          errs = (if err \<noteq> None then validationErrors @ [ValidationError ErrInvalidValidatorSyntax]
                  else validationErrors)
      in if v = num then (True, errs) else findInt v ss errs)"

text \<open>
  \<open>checkIntConstraints\<close> takes the result of \<^verbatim>\<open>val.Int()\<close>: both call sites guard it by
  \<^verbatim>\<open>Kind() == reflect.Int\<close>.
\<close>

definition checkIntConstraints ::
  "int \<Rightarrow> string \<Rightarrow> Constraints \<Rightarrow> ValidationErrors \<Rightarrow> ValidationErrors" where
  "checkIntConstraints val fieldName constraints validationErrors =
     (let e1 = (if max_c constraints \<noteq> - 1 \<and> val > max_c constraints
                then validationErrors @
                  [ValidationError (New (''field: '' @ fieldName @ '' err: value can't be more than max''))]
                else validationErrors);
          e2 = (if min_c constraints \<noteq> - 1 \<and> val < min_c constraints
                then e1 @
                  [ValidationError (New (''field: '' @ fieldName @ '' err: value can't be less than min''))]
                else e1);
          e3 = (if len_c constraints \<noteq> - 1
                then e2 @ [ValidationError ErrInvalidValidatorSyntax]
                else e2)
      in case in_c constraints of
           None \<Rightarrow> e3
         | Some toks \<Rightarrow>
             (let (find, e4) = findInt val toks e3
              in if \<not> find
                 then e4 @
                   [ValidationError (New (''field: '' @ fieldName @ '' err: value is not contained in the 'in'' @ [CHR 0x27]))]
                 else e4))"

text \<open>The loop of \<open>checkSliceConstraints\<close>, from index \<open>i\<close> over the remaining elements.\<close>

fun checkSliceLoop ::
  "nat \<Rightarrow> Value list \<Rightarrow> string \<Rightarrow> Constraints \<Rightarrow> ValidationErrors \<Rightarrow> ValidationErrors" where
  "checkSliceLoop i [] fieldName constraints validationErrors = validationErrors"
| "checkSliceLoop i (x # xs) fieldName constraints validationErrors =
     checkSliceLoop (Suc i) xs fieldName constraints
       (case x of
          IntV n \<Rightarrow>
            checkIntConstraints n (fieldName @ '' '' @ Itoa (int i) @ ''th element'')
              constraints validationErrors
        | _ \<Rightarrow>
            checkStringConstraints x (fieldName @ '' '' @ Itoa (int i) @ ''th element'')
              constraints validationErrors)"

definition checkSliceConstraints ::
  "Value list \<Rightarrow> string \<Rightarrow> Constraints \<Rightarrow> ValidationErrors \<Rightarrow> ValidationErrors" where
  "checkSliceConstraints elems fieldName constraints validationErrors =
     checkSliceLoop 0 elems fieldName constraints validationErrors"

fun CheckConstraints ::
  "Value \<Rightarrow> string \<Rightarrow> Constraints \<Rightarrow> ValidationErrors \<Rightarrow> ValidationErrors" where
  "CheckConstraints (StringV s) fieldName constraints validationErrors =
     checkStringConstraints (StringV s) fieldName constraints validationErrors"
| "CheckConstraints (IntV i) fieldName constraints validationErrors =
     checkIntConstraints i fieldName constraints validationErrors"
| "CheckConstraints (SliceV t elems) fieldName constraints validationErrors =
     checkSliceConstraints elems fieldName constraints validationErrors"
| "CheckConstraints val fieldName constraints validationErrors = validationErrors"

text \<open>
  The loop of \<open>Validate\<close> over the fields, with the statements after it: \<^verbatim>\<open>nil\<close> for an
  empty list, the list otherwise.
\<close>

fun validateFields :: "StructField list \<Rightarrow> ValidationErrors \<Rightarrow> panic + Result" where
  "validateFields [] validationErrors =
     Inr (if validationErrors = [] then NoError else ErrorList validationErrors)"
| "validateFields (f # fs) validationErrors =
     (if \<not> IsExported f \<and> Tag f \<noteq> [] then
        Inr (ErrorList [ValidationError ErrValidateForUnexportedFields])
      else
        (case ParseConstraints f validationErrors of
           Inl p \<Rightarrow> Inl p
         | Inr (constraints, errs) \<Rightarrow>
             validateFields fs (CheckConstraints (FieldValue f) (Name f) constraints errs)))"

text \<open>
  \<open>Validate\<close> on an \<^verbatim>\<open>any\<close>: \<open>None\<close> is the nil interface, for which
  \<^verbatim>\<open>reflect.TypeOf\<close> returns nil and the call of \<^verbatim>\<open>Kind\<close> on it panics.
\<close>

definition Validate :: "Value option \<Rightarrow> panic + Result" where
  "Validate v =
     (case v of
        None \<Rightarrow> Inl NilDereference
      | Some (StructV t fs) \<Rightarrow> validateFields fs []
      | Some val \<Rightarrow> Inr (PlainError ErrNotStruct))"

section \<open>Naming the violations\<close>

text \<open>The messages the checks build, named for the statements below.\<close>

definition text_max_violation :: "string \<Rightarrow> ValidationError" where
  "text_max_violation fieldName =
     ValidationError (New (''field: '' @ fieldName @ '' err: length can't be more than max''))"

definition text_min_violation :: "string \<Rightarrow> ValidationError" where
  "text_min_violation fieldName =
     ValidationError (New (''field: '' @ fieldName @ '' err: length can't be less than min''))"

definition text_len_violation :: "string \<Rightarrow> ValidationError" where
  "text_len_violation fieldName =
     ValidationError (New (''field: '' @ fieldName @ '' err: length must be equal to len''))"

definition int_max_violation :: "string \<Rightarrow> ValidationError" where
  "int_max_violation fieldName =
     ValidationError (New (''field: '' @ fieldName @ '' err: value can't be more than max''))"

definition int_min_violation :: "string \<Rightarrow> ValidationError" where
  "int_min_violation fieldName =
     ValidationError (New (''field: '' @ fieldName @ '' err: value can't be less than min''))"

definition not_in_violation :: "string \<Rightarrow> ValidationError" where
  "not_in_violation fieldName =
     ValidationError (New (''field: '' @ fieldName @ '' err: value is not contained in the 'in'' @ [CHR 0x27]))"

definition InvalidSyntax :: ValidationError where
  "InvalidSyntax = ValidationError ErrInvalidValidatorSyntax"

text \<open>One violation when the condition holds, none otherwise.\<close>

definition emit_if :: "bool \<Rightarrow> ValidationError \<Rightarrow> ValidationErrors" where
  "emit_if b e = (if b then [e] else [])"

text \<open>The label of the element at index \<open>i\<close> of a slice field.\<close>

definition element_label :: "string \<Rightarrow> nat \<Rightarrow> string" where
  "element_label fieldName i = fieldName @ '' '' @ Itoa (int i) @ ''th element''"

text \<open>
  The check of one slice element, started from no errors: the integer check for an
  element of kind Int, the text check for every other element.
\<close>

definition element_check :: "Value \<Rightarrow> string \<Rightarrow> Constraints \<Rightarrow> ValidationErrors" where
  "element_check x label constraints =
     (case x of
        IntV n \<Rightarrow> checkIntConstraints n label constraints []
      | _ \<Rightarrow> checkStringConstraints x label constraints [])"

text \<open>
  The violations of the text check on the string \<open>s\<close> and of the integer check on \<open>i\<close>
  under a label, written out step by step in the order max, min, len, in. In the integer
  check the \<open>in\<close> step gives the \<open>InvalidSyntax\<close> violations of its loop over the tokens,
  then the ``not contained'' violation.
\<close>

definition text_violations :: "string \<Rightarrow> string \<Rightarrow> Constraints \<Rightarrow> ValidationErrors" where
  "text_violations s label c =
     emit_if (max_c c \<noteq> - 1 \<and> int (length s) > max_c c) (text_max_violation label)
     @ emit_if (min_c c \<noteq> - 1 \<and> int (length s) < min_c c) (text_min_violation label)
     @ emit_if (len_c c \<noteq> - 1 \<and> int (length s) \<noteq> len_c c) (text_len_violation label)
     @ (case in_c c of
          None \<Rightarrow> []
        | Some toks \<Rightarrow> emit_if (s \<notin> set toks) (not_in_violation label))"

definition int_violations :: "int \<Rightarrow> string \<Rightarrow> Constraints \<Rightarrow> ValidationErrors" where
  "int_violations i label c =
     emit_if (max_c c \<noteq> - 1 \<and> i > max_c c) (int_max_violation label)
     @ emit_if (min_c c \<noteq> - 1 \<and> i < min_c c) (int_min_violation label)
     @ emit_if (len_c c \<noteq> - 1) InvalidSyntax
     @ (case in_c c of
          None \<Rightarrow> []
        | Some toks \<Rightarrow>
            snd (findInt i toks []) @ emit_if (\<not> fst (findInt i toks [])) (not_in_violation label))"

text \<open>
  The violations of one slice element: those of the integer check for an element of kind
  Int, those of the text check on \<open>String_of x\<close> for an element of any other kind.
\<close>

definition element_violations :: "Value \<Rightarrow> string \<Rightarrow> Constraints \<Rightarrow> ValidationErrors" where
  "element_violations x label c =
     (case x of
        IntV i \<Rightarrow> int_violations i label c
      | _ \<Rightarrow> text_violations (String_of x) label c)"

text \<open>
  The violations of the check of a field: by kind, and for a slice element after element
  from index 0, each under the name of the field, a blank, the index and \<^verbatim>\<open>th element\<close>.
  A field of any other kind has none.
\<close>

fun check_violations :: "Value \<Rightarrow> string \<Rightarrow> Constraints \<Rightarrow> ValidationErrors" where
  "check_violations (StringV s) n c = text_violations s n c"
| "check_violations (IntV i) n c = int_violations i n c"
| "check_violations (SliceV t elems) n c =
     concat (map (\<lambda>(j, x). element_violations x (n @ '' '' @ Itoa (int j) @ ''th element'') c)
               (enumerate 0 elems))"
| "check_violations val n c = []"

text \<open>
  The errors the parser reports for one clause, from its parts between the colons: one
  \<open>InvalidSyntax\<close> for a \<open>max\<close>, \<open>min\<close> or \<open>len\<close> whose value does not parse, one
  ``wrong length'' for a \<open>len\<close> that parses to a negative number, nothing otherwise.
\<close>

fun clause_errors_of :: "string list \<Rightarrow> ValidationErrors" where
  "clause_errors_of (key # val # rest) =
     (if key = ''max'' \<or> key = ''min'' then emit_if (snd (Atoi val) \<noteq> None) InvalidSyntax
      else if key = ''len'' then
        (if snd (Atoi val) \<noteq> None then [InvalidSyntax]
         else emit_if (fst (Atoi val) < 0) (ValidationError (New ''wrong length'')))
      else [])"
| "clause_errors_of parts = []"

definition clause_errors :: "string \<Rightarrow> ValidationErrors" where
  "clause_errors con = clause_errors_of (Split con CHR '':'')"

text \<open>The clauses of a rule string, in the order they are written; none for the empty one.\<close>

definition clauses :: "string \<Rightarrow> string list" where
  "clauses tag = (if tag = [] then [] else Split tag CHR '';'')"

text \<open>The constraints the parser returns for a field (when it does not panic).\<close>

definition parsed_constraints :: "StructField \<Rightarrow> Constraints" where
  "parsed_constraints f =
     (case ParseConstraints f [] of
        Inl p \<Rightarrow> NewConstraints
      | Inr (constraints, errs) \<Rightarrow> constraints)"

text \<open>
  What one field contributes: the errors of its clauses, clause after clause, then the
  violations of the check of its value under the parsed constraints.
\<close>

definition field_violations :: "StructField \<Rightarrow> ValidationErrors" where
  "field_violations f =
     concat (map clause_errors (clauses (Tag f)))
     @ check_violations (FieldValue f) (Name f) (parsed_constraints f)"

text \<open>The constraint a key stands for.\<close>

definition constraint_of :: "string \<Rightarrow> Constraints \<Rightarrow> int" where
  "constraint_of key c =
     (if key = ''max'' then max_c c else if key = ''min'' then min_c c else len_c c)"

definition result_of :: "ValidationErrors \<Rightarrow> Result" where
  "result_of errs = (if errs = [] then NoError else ErrorList errs)"

section \<open>The library functions\<close>

lemma Split_not_Nil: "Split s sep \<noteq> []"
  by (induction s) (auto split: list.splits)

lemma Split_no_sep: "sep \<notin> set s \<Longrightarrow> Split s sep = [s]"
  by (induction s) auto

lemma Split_append_sep: "sep \<notin> set a \<Longrightarrow> Split (a @ sep # b) sep = a # Split b sep"
  by (induction a) (auto split: list.splits simp: Split_not_Nil)

text \<open>A failed \<open>Atoi\<close> leaves one of three numbers behind.\<close>

lemma Atoi_error_value:
  "snd (Atoi s) \<noteq> None \<Longrightarrow> fst (Atoi s) \<in> {0, maxInt64, minInt64}"
  by (auto simp: Atoi_def Let_def split: if_splits prod.splits)

lemma ParseInt_error: "snd (Atoi s) \<noteq> None \<Longrightarrow> ParseInt s = (0, Some ErrInvalidValidatorSyntax)"
  by (cases "Atoi s") (auto simp: ParseInt_def)

section \<open>The parser\<close>

lemma index1_panic: "index1 xs = Inl p \<Longrightarrow> p = IndexOutOfRange"
  by (cases xs rule: index1.cases) auto

lemma parseClause_panic: "parseClause con st = Inl p \<Longrightarrow> p = IndexOutOfRange"
  by (cases "index1 (Split con CHR '':'')")
     (auto simp: parseClause_def Let_def dest: index1_panic
           split: prod.splits if_splits sum.splits option.splits)

lemma parseClause_bare_key:
  "con \<in> {''max'', ''min'', ''len'', ''in''} \<Longrightarrow> parseClause con st = Inl IndexOutOfRange"
  by (auto simp: parseClause_def Let_def split: prod.splits)

lemma parseClauses_bare_key:
  "con \<in> set cons \<Longrightarrow> con \<in> {''max'', ''min'', ''len'', ''in''} \<Longrightarrow>
   parseClauses cons st = Inl IndexOutOfRange"
proof (induction cons arbitrary: st)
  case Nil
  then show ?case by simp
next
  case (Cons c cs)
  show ?case
  proof (cases "parseClause c st")
    case (Inl p)
    then show ?thesis using parseClause_panic [OF Inl] by simp
  next
    case (Inr st')
    with Cons.prems parseClause_bare_key [of c st] have "con \<in> set cs" by auto
    with Cons.IH Cons.prems(2) Inr show ?thesis by simp
  qed
qed

text \<open>
  C9. A rule string with a clause that is a bare recognized key, without \<open>:\<close>, makes the
  parser read \<^verbatim>\<open>s[1]\<close> of a one-element slice: it panics with an index out of range. Such
  a rule string is not empty, so the parser is not total on the non-empty rule strings.
\<close>

theorem ParseConstraints_bare_key_panics:
  assumes "con \<in> set (Split (Tag f) CHR '';'')"
    and "con \<in> {''max'', ''min'', ''len'', ''in''}"
  shows "Tag f \<noteq> [] \<and> ParseConstraints f validationErrors = Inl IndexOutOfRange"
proof -
  have ne: "Tag f \<noteq> []"
  proof
    assume "Tag f = []"
    with assms show False by auto
  qed
  with parseClauses_bare_key [OF assms] show ?thesis
    by (simp add: ParseConstraints_def)
qed

theorem ParseConstraints_bare_key_panics_witness:
  "Tag (StructField ''Age'' True ''max'' (IntV 5)) \<noteq> [] \<and>
   ParseConstraints (StructField ''Age'' True ''max'' (IntV 5)) [] = Inl IndexOutOfRange"
  using ParseConstraints_bare_key_panics [of "''max''" "StructField ''Age'' True ''max'' (IntV 5)" "[]"]
  by simp

lemma parseClause_append:
  "parseClause con (c, errs) =
     (case parseClause con (c, []) of
        Inl p \<Rightarrow> Inl p
      | Inr (c', e) \<Rightarrow> Inr (c', errs @ e))"
  by (cases "index1 (Split con CHR '':'')"; cases "ParseInt (projr (index1 (Split con CHR '':'')))")
     (auto simp: parseClause_def Let_def split: option.splits)

lemma parseClauses_append:
  "parseClauses cons (c, errs) =
     (case parseClauses cons (c, []) of
        Inl p \<Rightarrow> Inl p
      | Inr (c', e) \<Rightarrow> Inr (c', errs @ e))"
proof (induction cons arbitrary: c errs)
  case Nil
  show ?case by simp
next
  case (Cons con cons)
  show ?case
  proof (cases "parseClause con (c, [])")
    case (Inl p)
    then show ?thesis by (simp add: parseClause_append [of con c errs])
  next
    case (Inr st)
    obtain c' e where st: "st = (c', e)" by (cases st)
    have "parseClauses (con # cons) (c, errs) = parseClauses cons (c', errs @ e)"
      using Inr st by (simp add: parseClause_append [of con c errs])
    moreover have "parseClauses (con # cons) (c, []) = parseClauses cons (c', e)"
      using Inr st by simp
    ultimately show ?thesis
      using Cons.IH [of c' "errs @ e"] Cons.IH [of c' e]
      by (auto split: sum.splits)
  qed
qed

lemma ParseConstraints_append:
  "ParseConstraints f errs =
     (case ParseConstraints f [] of
        Inl p \<Rightarrow> Inl p
      | Inr (c, e) \<Rightarrow> Inr (c, errs @ e))"
  using parseClauses_append [of "Split (Tag f) CHR '';''" NewConstraints errs]
  by (simp add: ParseConstraints_def)

lemma parseClauses_panic: "parseClauses cons st = Inl p \<Longrightarrow> p = IndexOutOfRange"
  by (induction cons arbitrary: st) (auto split: sum.splits dest: parseClause_panic)

lemma ParseConstraints_panic: "ParseConstraints f errs = Inl p \<Longrightarrow> p = IndexOutOfRange"
  by (auto simp: ParseConstraints_def split: if_splits dest: parseClauses_panic)

lemma parseClauses_app:
  "parseClauses (xs @ ys) st =
     (case parseClauses xs st of
        Inl p \<Rightarrow> Inl p
      | Inr st' \<Rightarrow> parseClauses ys st')"
  by (induction xs arbitrary: st) (auto split: sum.splits)

text \<open>The errors of a clause do not depend on the constraints read so far.\<close>

lemma parseClause_errors:
  assumes "parseClause con (c, []) = Inr (c', e)"
  shows "e = clause_errors con"
proof -
  obtain k rest where s: "Split con CHR '':'' = k # rest"
    using Split_not_Nil [of con "CHR '':''"] by (cases "Split con CHR '':''") auto
  show ?thesis
  proof (cases rest)
    case Nil
    with assms s show ?thesis
      by (auto simp: parseClause_def Let_def clause_errors_def split: if_splits)
  next
    case (Cons v r)
    with assms s show ?thesis
      by (cases "Atoi v")
         (auto simp: parseClause_def Let_def clause_errors_def ParseInt_def emit_if_def
            InvalidSyntax_def split: if_splits option.splits)
  qed
qed

lemma parseClauses_errors:
  "parseClauses cons (c, []) = Inr (c', e) \<Longrightarrow> e = concat (map clause_errors cons)"
proof (induction cons arbitrary: c c' e)
  case Nil
  then show ?case by simp
next
  case (Cons con cons)
  from Cons.prems obtain c1 e1 where
    1: "parseClause con (c, []) = Inr (c1, e1)" and 2: "parseClauses cons (c1, e1) = Inr (c', e)"
    by (auto split: sum.splits)
  from 2 obtain e2 where 3: "parseClauses cons (c1, []) = Inr (c', e2)" and 4: "e = e1 @ e2"
    by (auto simp: parseClauses_append [of cons c1 e1] split: sum.splits)
  from parseClause_errors [OF 1] Cons.IH [OF 3] 4 show ?case by simp
qed

lemma ParseConstraints_errors:
  "ParseConstraints f [] = Inr (c, e) \<Longrightarrow> e = concat (map clause_errors (clauses (Tag f)))"
  by (auto simp: ParseConstraints_def clauses_def split: if_splits dest: parseClauses_errors)

text \<open>A clause leaves the constraints of the other keys as they are.\<close>

lemma parseClause_other_key:
  assumes "parseClause con (c, e) = Inr (c', e')"
    and "hd (Split con CHR '':'') \<noteq> key"
    and "key \<in> {''max'', ''min'', ''len''}"
  shows "constraint_of key c' = constraint_of key c"
  using assms
  by (auto simp: parseClause_def Let_def constraint_of_def
        split: if_splits sum.splits prod.splits option.splits)

lemma parseClauses_other_keys:
  "parseClauses cons (c, e) = Inr (c', e') \<Longrightarrow>
   \<forall>con\<in>set cons. hd (Split con CHR '':'') \<noteq> key \<Longrightarrow>
   key \<in> {''max'', ''min'', ''len''} \<Longrightarrow>
   constraint_of key c' = constraint_of key c"
proof (induction cons arbitrary: c e)
  case Nil
  then show ?case by simp
next
  case (Cons con cons)
  from Cons.prems(1) obtain c1 e1 where
    1: "parseClause con (c, e) = Inr (c1, e1)" and 2: "parseClauses cons (c1, e1) = Inr (c', e')"
    by (auto split: sum.splits)
  from parseClause_other_key [OF 1 _ Cons.prems(3)] Cons.prems(2) Cons.IH [OF 2 _ Cons.prems(3)]
  show ?case by simp
qed

section \<open>The checks\<close>

lemma findString_set: "findString v ss = (v \<in> set ss)"
  by (induction ss) auto

lemma findInt_append:
  "findInt v toks errs = (fst (findInt v toks []), errs @ snd (findInt v toks []))"
proof (induction toks arbitrary: errs)
  case Nil
  show ?case by simp
next
  case (Cons s ss)
  show ?case
    using Cons.IH [of "errs @ [ValidationError ErrInvalidValidatorSyntax]"]
      Cons.IH [of "[ValidationError ErrInvalidValidatorSyntax]"] Cons.IH [of errs]
    by (cases "Atoi s") (auto simp: Let_def)
qed

lemma findInt_errors: "set (snd (findInt v toks [])) \<subseteq> {InvalidSyntax}"
proof (induction toks)
  case Nil
  show ?case by simp
next
  case (Cons s ss)
  then show ?case
    using findInt_append [of v ss "[ValidationError ErrInvalidValidatorSyntax]"]
    by (cases "Atoi s") (auto simp: Let_def InvalidSyntax_def)
qed

lemma findInt_all_parse:
  "\<forall>t\<in>set toks. snd (Atoi t) = None \<Longrightarrow> snd (findInt v toks errs) = errs"
  by (induction toks) (auto simp: Let_def split: prod.splits)

text \<open>The four steps of each check, in the order the source runs them.\<close>

lemma checkStringConstraints_parts:
  "checkStringConstraints val n c errs =
     errs
     @ emit_if (max_c c \<noteq> - 1 \<and> int (length (String_of val)) > max_c c) (text_max_violation n)
     @ emit_if (min_c c \<noteq> - 1 \<and> int (length (String_of val)) < min_c c) (text_min_violation n)
     @ emit_if (len_c c \<noteq> - 1 \<and> int (length (String_of val)) \<noteq> len_c c) (text_len_violation n)
     @ (case in_c c of
          None \<Rightarrow> []
        | Some toks \<Rightarrow> emit_if (String_of val \<notin> set toks) (not_in_violation n))"
  by (simp add: checkStringConstraints_def Let_def emit_if_def findString_set
        text_max_violation_def text_min_violation_def text_len_violation_def not_in_violation_def
      split: option.splits)

lemma checkIntConstraints_parts:
  "checkIntConstraints v n c errs =
     errs
     @ emit_if (max_c c \<noteq> - 1 \<and> v > max_c c) (int_max_violation n)
     @ emit_if (min_c c \<noteq> - 1 \<and> v < min_c c) (int_min_violation n)
     @ emit_if (len_c c \<noteq> - 1) InvalidSyntax
     @ (case in_c c of
          None \<Rightarrow> []
        | Some toks \<Rightarrow>
            snd (findInt v toks []) @ emit_if (\<not> fst (findInt v toks [])) (not_in_violation n))"
proof (cases "in_c c")
  case None
  then show ?thesis
    by (simp add: checkIntConstraints_def Let_def emit_if_def InvalidSyntax_def
          int_max_violation_def int_min_violation_def)
next
  case (Some toks)
  show ?thesis
    unfolding checkIntConstraints_def Let_def Some option.case
    by (subst findInt_append)
       (simp add: emit_if_def InvalidSyntax_def int_max_violation_def int_min_violation_def
          not_in_violation_def)
qed

lemma checkStringConstraints_append:
  "checkStringConstraints val n c errs = errs @ checkStringConstraints val n c []"
  by (simp add: checkStringConstraints_parts [of val n c errs]
        checkStringConstraints_parts [of val n c "[]"])

lemma checkIntConstraints_append:
  "checkIntConstraints v n c errs = errs @ checkIntConstraints v n c []"
  by (simp add: checkIntConstraints_parts [of v n c errs] checkIntConstraints_parts [of v n c "[]"])

lemma checkSliceLoop_parts:
  "checkSliceLoop i elems n c errs =
     errs @ concat (map (\<lambda>(j, x). element_check x (element_label n j) c) (enumerate i elems))"
proof (induction elems arbitrary: i errs)
  case Nil
  show ?case by simp
next
  case (Cons x xs)
  show ?case
    using checkIntConstraints_append [of _ "element_label n i" c errs]
      checkStringConstraints_append [of x "element_label n i" c errs]
    by (cases x) (simp_all add: Cons.IH element_check_def element_label_def)
qed

lemma checkStringConstraints_violations:
  "checkStringConstraints val n c errs = errs @ text_violations (String_of val) n c"
  by (simp add: checkStringConstraints_parts text_violations_def)

lemma checkIntConstraints_violations:
  "checkIntConstraints i n c errs = errs @ int_violations i n c"
  by (simp add: checkIntConstraints_parts int_violations_def)

lemma element_check_violations: "element_check x label c = element_violations x label c"
  by (cases x)
     (simp_all add: element_check_def element_violations_def checkStringConstraints_violations
        checkIntConstraints_violations)

lemma checkSliceConstraints_violations:
  "checkSliceConstraints elems n c errs =
     errs @ concat (map (\<lambda>(j, x). element_violations x (n @ '' '' @ Itoa (int j) @ ''th element'') c)
                     (enumerate 0 elems))"
  by (simp add: checkSliceConstraints_def checkSliceLoop_parts element_check_violations
        element_label_def)

lemma CheckConstraints_violations:
  "CheckConstraints val n c errs = errs @ check_violations val n c"
  by (cases val)
     (simp_all add: checkStringConstraints_violations checkIntConstraints_violations
        checkSliceConstraints_violations)

lemma CheckConstraints_append:
  "CheckConstraints val n c errs = errs @ CheckConstraints val n c []"
proof (cases val)
  case (StringV s)
  then show ?thesis using checkStringConstraints_append [of val n c errs] by simp
next
  case (IntV i)
  then show ?thesis using checkIntConstraints_append [of i n c errs] by simp
next
  case (SliceV t elems)
  then show ?thesis
    by (simp add: checkSliceConstraints_def checkSliceLoop_parts [of 0 elems n c errs]
          checkSliceLoop_parts [of 0 elems n c "[]"])
qed simp_all

text \<open>The messages differ from each other and from the syntax error.\<close>

lemma violations_distinct:
  "int_max_violation n \<noteq> int_min_violation n"
  "int_max_violation n \<noteq> not_in_violation n"
  "int_min_violation n \<noteq> not_in_violation n"
  "int_max_violation n \<noteq> InvalidSyntax"
  "int_min_violation n \<noteq> InvalidSyntax"
  "not_in_violation n \<noteq> InvalidSyntax"
  by (simp_all add: int_max_violation_def int_min_violation_def not_in_violation_def
        InvalidSyntax_def)

text \<open>
  C3, as the source has it. A bound of \<open>- 1\<close> is the value that stands for an unset
  constraint, so the rule \<^verbatim>\<open>max:-1\<close> checks nothing: the value 5 exceeds the bound and
  no violation is reported.
\<close>

theorem max_bound_minus_one_counterexample:
  "(5::int) > - 1 \<and>
   ParseConstraints (StructField ''Age'' True ''max:-1'' (IntV 5)) [] =
     Inr (NewConstraints\<lparr>max_c := - 1\<rparr>, []) \<and>
   Validate (Some (StructV ''T'' [StructField ''Age'' True ''max:-1'' (IntV 5)])) = Inr NoError"
  by code_simp

text \<open>
  C3, amended. For an integer field and every bound \<open>m\<close> other than \<open>- 1\<close>, the check
  reports one ``more than max'' violation exactly when the value is greater than \<open>m\<close>,
  and one ``less than min'' violation exactly when the value is less than \<open>m\<close>; negative
  bounds other than \<open>- 1\<close> included. A constraint that is unset (\<open>- 1\<close>) reports nothing,
  and with every constraint unset the check adds nothing at all.
\<close>

theorem checkIntConstraints_max_min:
  assumes "m \<noteq> - 1"
  shows "count_list (checkIntConstraints v n (c\<lparr>max_c := m\<rparr>) []) (int_max_violation n) =
           (if v > m then 1 else 0)
       \<and> count_list (checkIntConstraints v n (c\<lparr>min_c := m\<rparr>) []) (int_min_violation n) =
           (if v < m then 1 else 0)
       \<and> count_list (checkIntConstraints v n (c\<lparr>max_c := - 1\<rparr>) []) (int_max_violation n) = 0
       \<and> count_list (checkIntConstraints v n (c\<lparr>min_c := - 1\<rparr>) []) (int_min_violation n) = 0
       \<and> checkIntConstraints v n NewConstraints errs = errs"
proof -
  have no_max: "count_list (snd (findInt v toks [])) (int_max_violation n) = 0" for toks
    using findInt_errors [of v toks] violations_distinct(4) [of n]
    by (auto simp: count_list_0_iff)
  have no_min: "count_list (snd (findInt v toks [])) (int_min_violation n) = 0" for toks
    using findInt_errors [of v toks] violations_distinct(5) [of n]
    by (auto simp: count_list_0_iff)
  show ?thesis
    using assms violations_distinct [of n] violations_distinct [of n, symmetric]
    by (simp add: checkIntConstraints_parts emit_if_def no_max no_min NewConstraints_def
          split: option.splits)
qed

theorem checkIntConstraints_max_min_witness:
  "count_list (checkIntConstraints 15 ''Age'' (NewConstraints\<lparr>max_c := 10\<rparr>) [])
     (int_max_violation ''Age'') = 1
   \<and> count_list (checkIntConstraints (- 7) ''Age'' (NewConstraints\<lparr>min_c := - 5\<rparr>) [])
     (int_min_violation ''Age'') = 1"
  using checkIntConstraints_max_min [of 10 15 "''Age''" NewConstraints]
    checkIntConstraints_max_min [of "- 5" "- 7" "''Age''" NewConstraints]
  by simp

text \<open>
  C6, as the source has it. With \<open>len\<close> present on an integer field, an \<open>in\<close> token
  that does not parse adds a second \<open>InvalidSyntax\<close> violation.
\<close>

theorem int_len_with_bad_token_counterexample:
  "Validate (Some (StructV ''T'' [StructField ''Age'' True ''len:3;in:a'' (IntV 5)])) =
     Inr (ErrorList [InvalidSyntax, InvalidSyntax, not_in_violation ''Age''])"
  by code_simp

text \<open>
  C6, amended. For an integer field whose constraint set has \<open>len\<close> present and whose
  \<open>in\<close> tokens, if any, all parse as integers, the check reports exactly one
  \<open>InvalidSyntax\<close> violation, whatever the value of the field.
\<close>

theorem checkIntConstraints_len:
  assumes "len_c c \<noteq> - 1"
    and "\<forall>t\<in>set (case in_c c of None \<Rightarrow> [] | Some toks \<Rightarrow> toks). snd (Atoi t) = None"
  shows "count_list (checkIntConstraints v n c []) InvalidSyntax = 1"
  using assms violations_distinct [of n] findInt_all_parse [of _ v "[]"]
  by (simp add: checkIntConstraints_parts emit_if_def split: option.splits)

theorem checkIntConstraints_len_witness:
  "count_list
     (checkIntConstraints 7 ''Age'' \<lparr>len_c = 3, in_c = Some [''1'', ''2''], min_c = - 1, max_c = - 1\<rparr> [])
     InvalidSyntax = 1"
proof -
  have "\<forall>t\<in>set [''1'', ''2'']. snd (Atoi t) = None"
    by (simp add: Atoi_def ParseUint_def digit_of_def maxUint64_def)
  then show ?thesis
    using checkIntConstraints_len
      [of "\<lparr>len_c = 3, in_c = Some [''1'', ''2''], min_c = - 1, max_c = - 1\<rparr>" 7 "''Age''"]
    by simp
qed


text \<open>
  The number a failed parse leaves behind is compared with the value all the same: the
  value 0 is found in the rule \<^verbatim>\<open>in:x,y\<close>.
\<close>

lemma in_failed_token_matches_zero:
  "Validate (Some (StructV ''T'' [StructField ''Age'' True ''in:x,y'' (IntV 0)])) =
     Inr (ErrorList [InvalidSyntax])"
  by code_simp




section \<open>Slice fields\<close>

text \<open>
  C7, as the source has it. Not every violation of an element is labelled: the
  \<open>InvalidSyntax\<close> violation the integer check reports for \<open>len\<close> is the bare error, with
  no field name and no position. The rule \<^verbatim>\<open>len:3\<close> on the integers 5, 15 gives two of
  them, and nothing tells the elements apart.
\<close>

theorem slice_unlabelled_violation_counterexample:
  "Validate (Some (StructV ''T''
     [StructField ''Ages'' True ''len:3'' (SliceV ''[]int'' [IntV 5, IntV 15])])) =
     Inr (ErrorList
       [ValidationError ErrInvalidValidatorSyntax, ValidationError ErrInvalidValidatorSyntax])"
  by code_simp

text \<open>
  C7, amended. The check of a slice field adds, element after element from index 0, the
  violations of that element alone under the same constraints (\<open>element_violations\<close>): the
  integer check for an element of kind Int, the text check otherwise. The bound, length
  and membership violations of an element carry the label made of the field name, a
  blank, the index counted from 0 and \<^verbatim>\<open>th element\<close>; the \<open>InvalidSyntax\<close> violations of an
  integer element carry no label. The rule \<^verbatim>\<open>max:10\<close> on the integers 5, 15, 3 gives
  exactly one violation, labelled for the element at index 1; the rule \<^verbatim>\<open>len:1\<close> on the
  strings \<^verbatim>\<open>abc\<close>, \<^verbatim>\<open>a\<close>, \<^verbatim>\<open>xy\<close> gives one for index 0 and one for index 2.
\<close>

theorem checkSliceConstraints_elements:
  "checkSliceConstraints elems n c errs =
     errs @ concat (map (\<lambda>(i, x). element_violations x (n @ '' '' @ Itoa (int i) @ ''th element'') c)
                     (enumerate 0 elems))
   \<and> set (element_violations x label c) \<subseteq>
       {text_max_violation label, text_min_violation label, text_len_violation label,
        int_max_violation label, int_min_violation label, not_in_violation label,
        InvalidSyntax}
   \<and> Validate (Some (StructV ''T''
         [StructField ''Ages'' True ''max:10'' (SliceV ''[]int'' [IntV 5, IntV 15, IntV 3])])) =
       Inr (ErrorList
         [ValidationError (New ''field: Ages 1th element err: value can't be more than max'')])
   \<and> Validate (Some (StructV ''T''
         [StructField ''Tags'' True ''len:1''
            (SliceV ''[]string'' [StringV ''abc'', StringV ''a'', StringV ''xy''])])) =
       Inr (ErrorList
         [ValidationError (New ''field: Tags 0th element err: length must be equal to len''),
          ValidationError (New ''field: Tags 2th element err: length must be equal to len'')])"
proof (intro conjI)
  show "checkSliceConstraints elems n c errs =
     errs @ concat (map (\<lambda>(i, x). element_violations x (n @ '' '' @ Itoa (int i) @ ''th element'') c)
                     (enumerate 0 elems))"
    by (rule checkSliceConstraints_violations)
  have t: "set (text_violations s label c) \<subseteq>
       {text_max_violation label, text_min_violation label, text_len_violation label,
        int_max_violation label, int_min_violation label, not_in_violation label,
        InvalidSyntax}" for s
    by (auto simp: text_violations_def emit_if_def split: option.splits if_splits)
  have i: "set (int_violations k label c) \<subseteq>
       {text_max_violation label, text_min_violation label, text_len_violation label,
        int_max_violation label, int_min_violation label, not_in_violation label,
        InvalidSyntax}" for k
    using findInt_errors [of k]
    by (auto simp: int_violations_def emit_if_def split: option.splits if_splits)
  show "set (element_violations x label c) \<subseteq>
       {text_max_violation label, text_min_violation label, text_len_violation label,
        int_max_violation label, int_min_violation label, not_in_violation label,
        InvalidSyntax}"
    using t i by (cases x) (simp_all add: element_violations_def)
  show "Validate (Some (StructV ''T''
         [StructField ''Ages'' True ''max:10'' (SliceV ''[]int'' [IntV 5, IntV 15, IntV 3])])) =
       Inr (ErrorList
         [ValidationError (New ''field: Ages 1th element err: value can't be more than max'')])"
    by code_simp
  show "Validate (Some (StructV ''T''
         [StructField ''Tags'' True ''len:1''
            (SliceV ''[]string'' [StringV ''abc'', StringV ''a'', StringV ''xy''])])) =
       Inr (ErrorList
         [ValidationError (New ''field: Tags 0th element err: length must be equal to len''),
          ValidationError (New ''field: Tags 2th element err: length must be equal to len'')])"
    by code_simp
qed

lemma element_check_non_int:
  "Kind_of x \<noteq> IntK \<Longrightarrow> element_check x label c = checkStringConstraints x label c []"
  by (cases x) (simp_all add: element_check_def)

text \<open>
  C10. In a slice field the choice of the check has two branches only: an element whose
  kind is not Int, whatever its kind, is checked by the text check, on the string
  \<^verbatim>\<open>reflect.Value.String\<close> gives for it. It is not skipped, as a field of such a kind is.
\<close>

theorem checkSliceConstraints_non_int:
  assumes "\<forall>x\<in>set elems. Kind_of x \<noteq> IntK"
  shows "checkSliceConstraints elems n c errs =
     errs @ concat (map (\<lambda>(i, x). checkStringConstraints x (element_label n i) c [])
                     (enumerate 0 elems))"
proof -
  have m: "map (\<lambda>(i, x). element_check x (element_label n i) c) (enumerate 0 elems) =
        map (\<lambda>(i, x). checkStringConstraints x (element_label n i) c []) (enumerate 0 elems)"
  proof (rule map_cong [OF refl])
    fix p
    assume "p \<in> set (enumerate 0 elems)"
    then have "snd p \<in> set (map snd (enumerate 0 elems))"
      by (simp del: map_snd_enumerate)
    then have "snd p \<in> set elems"
      by simp
    with assms have "Kind_of (snd p) \<noteq> IntK" by blast
    then show "(case p of (i, x) \<Rightarrow> element_check x (element_label n i) c) =
               (case p of (i, x) \<Rightarrow> checkStringConstraints x (element_label n i) c [])"
      by (cases p) (simp add: element_check_non_int)
  qed
  show ?thesis
    by (simp only: checkSliceConstraints_def checkSliceLoop_parts m)
qed

theorem checkSliceConstraints_non_int_witness:
  "checkSliceConstraints [OtherV Bool ''bool'', StringV ''abc''] ''Flags''
     (NewConstraints\<lparr>len_c := 3\<rparr>) [] = [text_len_violation ''Flags 0th element'']
   \<and> CheckConstraints (OtherV Bool ''bool'') ''Flag'' (NewConstraints\<lparr>len_c := 3\<rparr>) [] = []"
proof -
  have "\<forall>x\<in>set [OtherV Bool ''bool'', StringV ''abc'']. Kind_of x \<noteq> IntK"
    by simp
  from checkSliceConstraints_non_int [OF this, of "''Flags''" "NewConstraints\<lparr>len_c := 3\<rparr>" "[]"]
  show ?thesis
    by (simp add: enumerate_eq_zip upt_rec checkStringConstraints_parts emit_if_def
          NewConstraints_def element_label_def Itoa_def nat_digits.simps digit_char_def)
qed

section \<open>Parse failures\<close>

lemma CheckConstraints_NewConstraints: "CheckConstraints val n NewConstraints errs = errs"
proof -
  have e: "element_check x l NewConstraints = []" for x l
    by (cases x)
       (simp_all add: element_check_def checkIntConstraints_def checkStringConstraints_def
          NewConstraints_def)
  show ?thesis
  proof (cases val)
    case (StringV s)
    then show ?thesis by (simp add: checkStringConstraints_def NewConstraints_def)
  next
    case (IntV i)
    then show ?thesis by (simp add: checkIntConstraints_def NewConstraints_def)
  next
    case (SliceV t elems)
    then show ?thesis
      by (simp add: checkSliceConstraints_def checkSliceLoop_parts e split_beta)
  qed simp_all
qed

text \<open>
  C8, as the source has it. A clause that fails to parse leaves the constraint as it
  was, which is not always unset: in the rule \<^verbatim>\<open>max:5;max:abc\<close> the bound 5 of the first
  clause stays, and the check reports the value 100 as more than max.
\<close>

theorem failed_clause_after_bound_counterexample:
  "ParseConstraints (StructField ''Age'' True ''max:5;max:abc'' (IntV 100)) [] =
     Inr (NewConstraints\<lparr>max_c := 5\<rparr>, [InvalidSyntax])
   \<and> Validate (Some (StructV ''T'' [StructField ''Age'' True ''max:5;max:abc'' (IntV 100)])) =
     Inr (ErrorList [InvalidSyntax, int_max_violation ''Age''])"
  by code_simp

text \<open>
  C8, amended. A clause with the key \<open>max\<close>, \<open>min\<close> or \<open>len\<close> whose value \<open>Atoi\<close> rejects
  adds exactly one \<open>InvalidSyntax\<close> violation, at its place among the errors of the rule,
  and leaves the constraints as they were: when the other clauses parse without a panic,
  the parser returns the constraints of the rule without that clause, so the checks that
  follow treat the clause as absent. The constraint of its key is unset when no other
  clause of the rule has that key; for a rule made of the clause alone, such as
  \<^verbatim>\<open>max:abc\<close>, every constraint is unset and the check reports nothing for the field.
\<close>

theorem parse_failure_clause:
  assumes "key \<in> {''max'', ''min'', ''len''}"
    and "snd (Atoi val) \<noteq> None"
    and "CHR '':'' \<notin> set val"
    and "Split (Tag f) CHR '';'' = pre @ (key @ '':'' @ val) # post"
    and "parseClauses pre (NewConstraints, []) = Inr (c1, e1)"
    and "parseClauses post (c1, []) = Inr (c2, e2)"
  shows "parseClause (key @ '':'' @ val) (c, errs) = Inr (c, errs @ [InvalidSyntax])
       \<and> ParseConstraints f errs = Inr (c2, errs @ e1 @ [InvalidSyntax] @ e2)
       \<and> parseClauses (pre @ post) (NewConstraints, errs) = Inr (c2, errs @ e1 @ e2)
       \<and> ((\<forall>con\<in>set (pre @ post). hd (Split con CHR '':'') \<noteq> key) \<longrightarrow>
            constraint_of key c2 = - 1)
       \<and> (pre = [] \<and> post = [] \<longrightarrow>
            c2 = NewConstraints \<and> CheckConstraints x n c2 es = es)"
proof -
  have clause: "parseClause (key @ '':'' @ val) (c', errs') = Inr (c', errs' @ [InvalidSyntax])"
    for c' errs'
    using assms(1) ParseInt_error [OF assms(2)]
    by (auto simp: parseClause_def Split_no_sep [OF assms(3)] InvalidSyntax_def)
  have ne: "Tag f \<noteq> []"
  proof
    assume "Tag f = []"
    with assms(4) show False by (cases pre) auto
  qed
  have pre: "parseClauses pre (NewConstraints, errs) = Inr (c1, errs @ e1)"
    using assms(5) by (simp add: parseClauses_append [of pre NewConstraints errs])
  have post: "parseClauses post (c1, es') = Inr (c2, es' @ e2)" for es'
    using assms(6) by (simp add: parseClauses_append [of post c1 es'])
  have whole: "ParseConstraints f errs = Inr (c2, errs @ e1 @ [InvalidSyntax] @ e2)"
    using ne assms(4) pre clause [of c1 "errs @ e1"] post [of "errs @ e1 @ [InvalidSyntax]"]
    by (simp add: ParseConstraints_def parseClauses_app)
  have without: "parseClauses (pre @ post) (NewConstraints, errs) = Inr (c2, errs @ e1 @ e2)"
    using pre post [of "errs @ e1"] by (simp add: parseClauses_app)
  have unset: "constraint_of key c2 = - 1"
    if "\<forall>con\<in>set (pre @ post). hd (Split con CHR '':'') \<noteq> key"
  proof -
    have "constraint_of key c2 = constraint_of key NewConstraints"
      using parseClauses_other_keys [OF without that assms(1)] .
    then show ?thesis
      by (simp add: constraint_of_def NewConstraints_def)
  qed
  have alone: "c2 = NewConstraints \<and> CheckConstraints x n c2 es = es"
    if "pre = [] \<and> post = []"
    using that assms(5,6) by (simp add: CheckConstraints_NewConstraints)
  from clause [of c errs] whole without unset alone show ?thesis
    by blast
qed

theorem parse_failure_clause_witness:
  "ParseConstraints (StructField ''Age'' True ''min:3;max:abc;len:-2'' (IntV 100)) [] =
     Inr (NewConstraints\<lparr>min_c := 3\<rparr>, [InvalidSyntax, ValidationError (New ''wrong length'')])
   \<and> constraint_of ''max'' (NewConstraints\<lparr>min_c := 3\<rparr>) = - 1
   \<and> ParseConstraints (StructField ''Age'' True ''max:abc'' (IntV 100)) [] =
     Inr (NewConstraints, [InvalidSyntax])
   \<and> CheckConstraints (IntV 100) ''Age'' NewConstraints [InvalidSyntax] = [InvalidSyntax]"
proof -
  have a: "snd (Atoi ''abc'') \<noteq> None"
    by (simp add: Atoi_def ParseUint_def digit_of_def)
  have b: "CHR '':'' \<notin> set ''abc''"
    by simp
  have s1: "Split (Tag (StructField ''Age'' True ''min:3;max:abc;len:-2'' (IntV 100))) CHR '';'' =
      [''min:3''] @ (''max'' @ '':'' @ ''abc'') # [''len:-2'']"
    by simp
  have p1: "parseClauses [''min:3''] (NewConstraints, []) = Inr (NewConstraints\<lparr>min_c := 3\<rparr>, [])"
    by code_simp
  have q1: "parseClauses [''len:-2''] (NewConstraints\<lparr>min_c := 3\<rparr>, []) =
      Inr (NewConstraints\<lparr>min_c := 3\<rparr>, [ValidationError (New ''wrong length'')])"
    by code_simp
  have o1: "\<forall>con\<in>set ([''min:3''] @ [''len:-2'']). hd (Split con CHR '':'') \<noteq> ''max''"
    by simp
  have s2: "Split (Tag (StructField ''Age'' True ''max:abc'' (IntV 100))) CHR '';'' =
      [] @ (''max'' @ '':'' @ ''abc'') # []"
    by simp
  have p2: "parseClauses [] (NewConstraints, []) = Inr (NewConstraints, [])"
    by simp
  from parse_failure_clause [OF _ a b s1 p1 q1, where errs = "[]"] o1
    parse_failure_clause [OF _ a b s2 p2 p2, where errs = "[]" and x = "IntV 100"
      and n = "''Age''" and es = "[InvalidSyntax]"]
  show ?thesis
    by simp
qed

section \<open>The entry point\<close>

lemma Validate_not_struct:
  "Kind_of v \<noteq> StructK \<Longrightarrow> Validate (Some v) = Inr (PlainError ErrNotStruct)"
  by (cases v) (simp_all add: Validate_def)

text \<open>
  C4. Every input that is not nil and not a struct gets \<open>ErrNotStruct\<close>
  (\<open>Validate_not_struct\<close>), but the nil input does not: \<^verbatim>\<open>reflect.TypeOf(nil)\<close> is nil,
  and \<open>Validate\<close> panics on it before any test of the kind.
\<close>

theorem Validate_nil_panics: "Validate None = Inl NilDereference"
  by (simp add: Validate_def)

lemma validateFields_unexported:
  assumes "\<not> IsExported f" and "Tag f \<noteq> []"
    and "\<forall>g\<in>set pre. ParseConstraints g [] \<noteq> Inl IndexOutOfRange"
  shows "validateFields (pre @ f # post) errs =
     Inr (ErrorList [ValidationError ErrValidateForUnexportedFields])"
  using assms(3)
proof (induction pre arbitrary: errs)
  case Nil
  from assms(1,2) show ?case by simp
next
  case (Cons g gs)
  from Cons.prems have "ParseConstraints g [] \<noteq> Inl IndexOutOfRange" by simp
  then obtain c e where "ParseConstraints g [] = Inr (c, e)"
    using ParseConstraints_panic [of g "[]"] by (cases "ParseConstraints g []") auto
  then have "ParseConstraints g errs = Inr (c, errs @ e)"
    by (simp add: ParseConstraints_append [of g errs])
  with Cons show ?case by simp
qed

text \<open>
  C2, as the source has it. The error for a rule on an unexported field is returned
  inside a \<open>ValidationErrors\<close> list of one element, not as a plain error. The violation of
  the earlier field \<open>A\<close> is dropped.
\<close>

theorem unexported_error_in_list_counterexample:
  "Validate (Some (StructV ''T''
     [StructField ''A'' True ''max:1'' (StringV ''abc''),
      StructField ''b'' False ''max:1'' (StringV ''abc'')])) =
     Inr (ErrorList [ValidationError ErrValidateForUnexportedFields])
   \<and> Validate (Some (StructV ''T''
     [StructField ''A'' True ''max:1'' (StringV ''abc''),
      StructField ''b'' False ''max:1'' (StringV ''abc'')])) \<noteq>
     Inr (PlainError ErrValidateForUnexportedFields)"
  by code_simp

text \<open>
  C2, amended. When a field that is not exported carries a non-empty rule string, and
  the rule strings of the fields before it parse without a panic, \<open>Validate\<close> returns a
  \<open>ValidationErrors\<close> list whose only element is \<open>ErrValidateForUnexportedFields\<close>: the
  violations of the earlier fields are dropped, and the later fields are not looked at.
\<close>

theorem Validate_unexported_field:
  assumes "\<not> IsExported f" and "Tag f \<noteq> []"
    and "\<forall>g\<in>set pre. ParseConstraints g [] \<noteq> Inl IndexOutOfRange"
  shows "Validate (Some (StructV t (pre @ f # post))) =
     Inr (ErrorList [ValidationError ErrValidateForUnexportedFields])"
  using validateFields_unexported [OF assms] by (simp add: Validate_def)

theorem Validate_unexported_field_witness:
  "Validate (Some (StructV ''T''
     ([StructField ''A'' True ''max:1'' (StringV ''abc'')]
      @ StructField ''b'' False ''max:1'' (StringV ''abc'')
      # [StructField ''C'' True ''max'' (IntV 1)]))) =
     Inr (ErrorList [ValidationError ErrValidateForUnexportedFields])"
proof -
  have "\<forall>g\<in>set [StructField ''A'' True ''max:1'' (StringV ''abc'')].
          ParseConstraints g [] \<noteq> Inl IndexOutOfRange"
    by code_simp
  from Validate_unexported_field [OF _ _ this, of "StructField ''b'' False ''max:1'' (StringV ''abc'')"]
  show ?thesis by simp
qed

lemma validateFields_order:
  assumes "\<forall>f\<in>set fs. IsExported f \<or> Tag f = []"
    and "\<forall>f\<in>set fs. ParseConstraints f [] \<noteq> Inl IndexOutOfRange"
  shows "validateFields fs errs = Inr (result_of (errs @ concat (map field_violations fs)))"
  using assms
proof (induction fs arbitrary: errs)
  case Nil
  show ?case by (simp add: result_of_def)
next
  case (Cons f fs)
  from Cons.prems have "ParseConstraints f [] \<noteq> Inl IndexOutOfRange" by simp
  then obtain c e where p: "ParseConstraints f [] = Inr (c, e)"
    using ParseConstraints_panic [of f "[]"] by (cases "ParseConstraints f []") auto
  then have "ParseConstraints f errs = Inr (c, errs @ e)"
    by (simp add: ParseConstraints_append [of f errs])
  moreover have "field_violations f = e @ CheckConstraints (FieldValue f) (Name f) c []"
    using p ParseConstraints_errors [OF p]
      CheckConstraints_violations [of "FieldValue f" "Name f" c "[]"]
    by (simp add: field_violations_def parsed_constraints_def)
  moreover have "CheckConstraints (FieldValue f) (Name f) c (errs @ e) =
      errs @ e @ CheckConstraints (FieldValue f) (Name f) c []"
    using CheckConstraints_append [of "FieldValue f" "Name f" c "errs @ e"] by simp
  ultimately show ?case
    using Cons by auto
qed

text \<open>
  C5, as the source has it. In a slice field the violations follow the elements: the
  ``less than min'' violation of the element at index 0 comes before the ``more than
  max'' violation of the element at index 1.
\<close>

theorem slice_field_order_counterexample:
  "Validate (Some (StructV ''T''
     [StructField ''Tags'' True ''max:1;min:5'' (SliceV ''[]string'' [StringV ''abc'', StringV ''abc''])])) =
     Inr (ErrorList
       [text_max_violation ''Tags 0th element'', text_min_violation ''Tags 0th element'',
        text_max_violation ''Tags 1th element'', text_min_violation ''Tags 1th element''])"
  by code_simp

text \<open>
  C5, amended. When no field that is not exported carries a rule string and no rule
  string makes the parser panic, \<open>Validate\<close> returns the violations of the fields in
  declaration order (none at all is \<^verbatim>\<open>nil\<close>). Each field gives (\<open>field_violations\<close>) the
  errors of the parser first, clause after clause in the order of the rule string, then
  the violations of its check (\<open>check_violations\<close>): for a text field and for an integer
  field in the order max, min, len, in; for a slice field element after element in index
  order, and for each element in the order max, min, len, in, by the integer check for an
  element of kind Int and by the text check on its string rendering for an element of any
  other kind. A field of another kind gives the errors of the parser only.
\<close>

theorem Validate_order:
  assumes "\<forall>f\<in>set fs. IsExported f \<or> Tag f = []"
    and "\<forall>f\<in>set fs. ParseConstraints f [] \<noteq> Inl IndexOutOfRange"
  shows "Validate (Some (StructV t fs)) = Inr (result_of (concat (map field_violations fs)))"
  using validateFields_order [OF assms, of "[]"]
  by (simp add: Validate_def)

theorem Validate_order_witness:
  "Validate (Some (StructV ''T''
     [StructField ''Name'' True ''max:a;len:-1;min:3;max:1;in:x,y'' (StringV ''ab''),
      StructField ''Flags'' True ''min:20;max:1'' (SliceV ''[]bool'' [OtherV Bool ''bool'', OtherV Bool ''bool'']),
      StructField ''Age'' True ''in:1,b;len:2;min:9;max:4'' (IntV 5),
      StructField ''Ok'' True ''len:x'' (OtherV Bool ''bool'')])) =
     Inr (ErrorList
       [InvalidSyntax, ValidationError (New ''wrong length''),
        text_max_violation ''Name'', text_min_violation ''Name'', not_in_violation ''Name'',
        text_max_violation ''Flags 0th element'', text_min_violation ''Flags 0th element'',
        text_max_violation ''Flags 1th element'', text_min_violation ''Flags 1th element'',
        int_max_violation ''Age'', int_min_violation ''Age'', InvalidSyntax, InvalidSyntax,
        not_in_violation ''Age'',
        InvalidSyntax])"
proof -
  have "\<forall>f\<in>set
     [StructField ''Name'' True ''max:a;len:-1;min:3;max:1;in:x,y'' (StringV ''ab''),
      StructField ''Flags'' True ''min:20;max:1'' (SliceV ''[]bool'' [OtherV Bool ''bool'', OtherV Bool ''bool'']),
      StructField ''Age'' True ''in:1,b;len:2;min:9;max:4'' (IntV 5),
      StructField ''Ok'' True ''len:x'' (OtherV Bool ''bool'')]. IsExported f \<or> Tag f = []"
    by simp
  moreover have "\<forall>f\<in>set
     [StructField ''Name'' True ''max:a;len:-1;min:3;max:1;in:x,y'' (StringV ''ab''),
      StructField ''Flags'' True ''min:20;max:1'' (SliceV ''[]bool'' [OtherV Bool ''bool'', OtherV Bool ''bool'']),
      StructField ''Age'' True ''in:1,b;len:2;min:9;max:4'' (IntV 5),
      StructField ''Ok'' True ''len:x'' (OtherV Bool ''bool'')].
      ParseConstraints f [] \<noteq> Inl IndexOutOfRange"
    by code_simp
  moreover have "result_of (concat (map field_violations
     [StructField ''Name'' True ''max:a;len:-1;min:3;max:1;in:x,y'' (StringV ''ab''),
      StructField ''Flags'' True ''min:20;max:1'' (SliceV ''[]bool'' [OtherV Bool ''bool'', OtherV Bool ''bool'']),
      StructField ''Age'' True ''in:1,b;len:2;min:9;max:4'' (IntV 5),
      StructField ''Ok'' True ''len:x'' (OtherV Bool ''bool'')])) =
     ErrorList
       [InvalidSyntax, ValidationError (New ''wrong length''),
        text_max_violation ''Name'', text_min_violation ''Name'', not_in_violation ''Name'',
        text_max_violation ''Flags 0th element'', text_min_violation ''Flags 0th element'',
        text_max_violation ''Flags 1th element'', text_min_violation ''Flags 1th element'',
        int_max_violation ''Age'', int_min_violation ''Age'', InvalidSyntax, InvalidSyntax,
        not_in_violation ''Age'',
        InvalidSyntax]"
    by code_simp
  ultimately show ?thesis
    using Validate_order [of
     "[StructField ''Name'' True ''max:a;len:-1;min:3;max:1;in:x,y'' (StringV ''ab''),
      StructField ''Flags'' True ''min:20;max:1'' (SliceV ''[]bool'' [OtherV Bool ''bool'', OtherV Bool ''bool'']),
      StructField ''Age'' True ''in:1,b;len:2;min:9;max:4'' (IntV 5),
      StructField ''Ok'' True ''len:x'' (OtherV Bool ''bool'')]" "''T''"]
    by simp
qed

end
